theory Spec2Isabelle
  imports Complex_Main
begin

section \<open>Interactive homography: the session object of \<^verbatim>\<open>interactive_homography.py\<close>\<close>

text \<open>
  The class \<^verbatim>\<open>InteractiveHomography\<close> loads an image, shows a half-size preview, records
  up to four clicked corners (in preview and in source coordinates) and warps the
  full-resolution image through the homography of the four corners.

  Conventions of the embedding:
  \<^item> Python integers are \<^typ>\<open>int\<close>; Python floats and the entries of a NumPy \<^verbatim>\<open>float32\<close>
    array are the \<^typ>\<open>real\<close> numbers they denote. Every \<^verbatim>\<open>float32\<close> operation of the program
    rounds its exact result to \<^verbatim>\<open>float32\<close> (\<open>f32\<close>: the nearest value with 24 significant
    bits, ties to even; overflow and subnormal numbers are not modelled): the conversion
    of the corners to a \<^verbatim>\<open>float32\<close> array, the differences of corners, and the products, the
    sum and the square root inside \<^verbatim>\<open>np.linalg.norm\<close>. The product \<^verbatim>\<open>x * 2.0\<close> of a mouse
    coordinate is computed in a double, where it is exact.
  \<^item> NumPy pixel buffers live in an explicit store (\<open>heap\<close>, a list indexed by address),
    since \<^verbatim>\<open>cv2.circle\<close>, \<^verbatim>\<open>cv2.putText\<close> and \<^verbatim>\<open>cv2.line\<close> mutate the buffer they are given
    while \<^verbatim>\<open>copy\<close>, \<^verbatim>\<open>cv2.resize\<close> and \<^verbatim>\<open>cv2.warpPerspective\<close> return a new one.
  \<^item> The functions of OpenCV are a parameter \<open>cv\<close> of the model (a record of functions on
    an arbitrary type of images): nothing is assumed about what they compute.
  \<^item> Exceptions are values of type \<open>error\<close>; a method that can raise returns \<open>error + _\<close>.
  \<^item> Window handling and console output (\<^verbatim>\<open>namedWindow\<close>, \<^verbatim>\<open>imshow\<close>, \<^verbatim>\<open>print\<close>) do not
    touch the session object and are left out; the unused callback arguments \<^verbatim>\<open>flags\<close>
    and \<^verbatim>\<open>param\<close> are dropped.
\<close>

subsection \<open>Values\<close>

type_synonym point = "int \<times> int"
  \<comment> \<open>a Python list \<^verbatim>\<open>[x, y]\<close> of integers\<close>

type_synonym point32 = "real \<times> real"
  \<comment> \<open>a row of a \<^verbatim>\<open>float32\<close> array\<close>

type_synonym colour = "nat \<times> nat \<times> nat"

type_synonym addr = nat

datatype mat3 = Mat3 real real real  real real real  real real real
  \<comment> \<open>a 3x3 matrix, row by row\<close>

datatype value_error = CannotReadImage | NeedFourCorners | NeedFourCornersFirst
  \<comment> \<open>the three messages of \<^verbatim>\<open>ValueError\<close>: source lines 19, 96 and 104\<close>

datatype error = ValueError value_error | Cv2Error

datatype draw_op =
    Circle point int colour int
  | PutText string point int real colour int
  | Line point point colour int

definition EVENT_LBUTTONDOWN :: int where
  "EVENT_LBUTTONDOWN = 1"

definition FONT_HERSHEY_SIMPLEX :: int where
  "FONT_HERSHEY_SIMPLEX = 0"

subsection \<open>The library\<close>

record 'img cv2 =
  shape :: "'img \<Rightarrow> nat \<times> nat"
    \<comment> \<open>\<^verbatim>\<open>img.shape[:2]\<close>: (height, width)\<close>
  resize :: "'img \<Rightarrow> nat \<times> nat \<Rightarrow> error + 'img"
    \<comment> \<open>\<^verbatim>\<open>cv2.resize(img, (width, height))\<close>, a new buffer\<close>
  draw :: "draw_op \<Rightarrow> 'img \<Rightarrow> 'img"
    \<comment> \<open>the content of a buffer after \<^verbatim>\<open>cv2.circle\<close>, \<^verbatim>\<open>cv2.putText\<close> or \<^verbatim>\<open>cv2.line\<close>\<close>
  findHomography :: "point32 list \<Rightarrow> point32 list \<Rightarrow> mat3 option"
    \<comment> \<open>the matrix \<^verbatim>\<open>H\<close> of \<^verbatim>\<open>cv2.findHomography(src, dst)\<close>, \<^verbatim>\<open>None\<close> when it finds none\<close>
  warpPerspective :: "'img \<Rightarrow> mat3 option \<Rightarrow> int \<times> int \<Rightarrow> error + 'img"
    \<comment> \<open>\<^verbatim>\<open>cv2.warpPerspective(img, H, (width, height))\<close>, a new buffer\<close>

subsection \<open>Python and NumPy primitives\<close>

definition py_int :: "real \<Rightarrow> int" where
  \<comment> \<open>\<^verbatim>\<open>int(r)\<close> of a float: truncation towards zero\<close>
  "py_int r = (if r < 0 then \<lceil>r\<rceil> else \<lfloor>r\<rfloor>)"

function str :: "nat \<Rightarrow> string" where
  \<comment> \<open>\<^verbatim>\<open>str(n)\<close> of a natural number: its decimal digits\<close>
  "str n = (if n < 10 then [''0123456789'' ! n]
            else str (n div 10) @ [''0123456789'' ! (n mod 10)])"
  by pat_completeness auto
termination
  by (relation "measure id") auto

definition round_even :: "real \<Rightarrow> int" where
  \<comment> \<open>the nearest integer, the even one of two nearest\<close>
  "round_even x =
     (let n = \<lfloor>x\<rfloor>; d = x - real_of_int n
      in if d < 1 / 2 then n else if 1 / 2 < d then n + 1 else if even n then n else n + 1)"

definition f32 :: "real \<Rightarrow> real" where
  \<comment> \<open>rounding to \<^verbatim>\<open>float32\<close>: 24 significant bits, the last one worth \<open>2^(e - 23)\<close>
    for a number in \<open>[2^e, 2^(e + 1))\<close>\<close>
  "f32 r =
     (if r = 0 then 0
      else let q = 2 powr (real_of_int \<lfloor>log 2 \<bar>r\<bar>\<rfloor> - 23)
           in real_of_int (round_even (r / q)) * q)"

definition float32 :: "point list \<Rightarrow> point32 list" where
  \<comment> \<open>\<^verbatim>\<open>np.array(points, dtype="float32")\<close>: every coordinate rounded to \<^verbatim>\<open>float32\<close>\<close>
  "float32 ps = map (\<lambda>(x, y). (f32 (real_of_int x), f32 (real_of_int y))) ps"

definition vsub :: "point32 \<Rightarrow> point32 \<Rightarrow> point32" where
  \<comment> \<open>\<^verbatim>\<open>a - b\<close> on rows of a \<^verbatim>\<open>float32\<close> array: the differences, rounded to \<^verbatim>\<open>float32\<close>\<close>
  "vsub a b = (f32 (fst a - fst b), f32 (snd a - snd b))"

definition dot32 :: "point32 \<Rightarrow> real" where
  \<comment> \<open>\<^verbatim>\<open>v.dot(v)\<close> of a \<^verbatim>\<open>float32\<close> vector: the two products and their sum, each rounded\<close>
  "dot32 v = f32 (f32 (fst v * fst v) + f32 (snd v * snd v))"

definition linalg_norm :: "point32 \<Rightarrow> real" where
  \<comment> \<open>\<^verbatim>\<open>np.linalg.norm(v)\<close> of a \<^verbatim>\<open>float32\<close> vector: \<^verbatim>\<open>sqrt(v.dot(v))\<close>, in \<^verbatim>\<open>float32\<close>\<close>
  "linalg_norm v = f32 (sqrt (dot32 v))"

subsection \<open>The session object\<close>

record 'img session =
  heap :: "'img list"
  image :: addr
  original_image :: addr
  display_image :: addr
  original_height :: nat
  original_width :: nat
  display_width :: nat
  display_height :: nat
  scale_factor :: real
  corners :: "point list"
  original_corners :: "point list"

definition init :: "'img cv2 \<Rightarrow> 'img option \<Rightarrow> error + 'img session" where
  \<comment> \<open>\<^verbatim>\<open>__init__\<close>; \<open>loaded\<close> is what \<^verbatim>\<open>cv2.imread\<close> returned\<close>
  "init cv loaded =
     (case loaded of
        None \<Rightarrow> Inl (ValueError CannotReadImage)
      | Some img \<Rightarrow>
          (let (h, w) = shape cv img;
               dw = w div 2;
               dh = h div 2
           in case resize cv img (dw, dh) of
                Inl e \<Rightarrow> Inl e
              | Inr small \<Rightarrow>
                  Inr \<lparr> heap = [img, img, small],
                        image = 0, original_image = 1, display_image = 2,
                        original_height = h, original_width = w,
                        display_width = dw, display_height = dh,
                        scale_factor = 2,
                        corners = [], original_corners = [] \<rparr>))"

definition mouse_callback ::
  "'img cv2 \<Rightarrow> int \<Rightarrow> int \<Rightarrow> int \<Rightarrow> 'img session \<Rightarrow> 'img session" where
  "mouse_callback cv event x y s =
     (if event = EVENT_LBUTTONDOWN \<and> length (corners s) < 4 then
        (let cs = corners s @ [(x, y)];
             original_x = py_int (real_of_int x * scale_factor s);
             original_y = py_int (real_of_int y * scale_factor s);
             ocs = original_corners s @ [(original_x, original_y)];
             d0 = heap s ! display_image s;
             d1 = draw cv (Circle (x, y) 5 (0, 255, 0) (- 1)) d0;
             d2 = draw cv (PutText (str (length cs)) (x + 10, y - 10)
                             FONT_HERSHEY_SIMPLEX (7 / 10) (255, 0, 0) 2) d1;
             d3 = (if length cs > 1
                   then draw cv (Line (cs ! (length cs - 2)) (cs ! (length cs - 1))
                                   (0, 0, 255) 2) d2
                   else d2);
             d4 = (if length cs = 4
                   then draw cv (Line (cs ! 3) (cs ! 0) (0, 0, 255) 2) d3
                   else d3)
         in s \<lparr> corners := cs, original_corners := ocs,
                 heap := (heap s)[display_image s := d4] \<rparr>)
      else s)"

type_synonym mouse_event = "int \<times> int \<times> int"
  \<comment> \<open>(event, x, y)\<close>

fun waitKey :: "'img cv2 \<Rightarrow> mouse_event list \<Rightarrow> 'img session \<Rightarrow> 'img session" where
  \<comment> \<open>\<^verbatim>\<open>cv2.waitKey(0)\<close>: the mouse events dispatched to the callback until a key is pressed\<close>
  "waitKey cv [] s = s"
| "waitKey cv ((event, x, y) # evs) s = waitKey cv evs (mouse_callback cv event x y s)"

definition select_corners ::
  "'img cv2 \<Rightarrow> mouse_event list \<Rightarrow> 'img session \<Rightarrow> (error + point32 list) \<times> 'img session" where
  "select_corners cv evs s =
     (let s' = waitKey cv evs s
      in if length (corners s') \<noteq> 4 then (Inl (ValueError NeedFourCorners), s')
         else (Inr (float32 (original_corners s')), s'))"

definition compute_output_size :: "point32 list \<Rightarrow> int \<times> int" where
  \<comment> \<open>the branch \<^verbatim>\<open>output_size is None\<close> of \<^verbatim>\<open>transform\<close> (source lines 112 to 118)\<close>
  "compute_output_size cs =
     (let widthA = linalg_norm (vsub (cs ! 2) (cs ! 3));
          widthB = linalg_norm (vsub (cs ! 1) (cs ! 0));
          max_width = max (py_int widthA) (py_int widthB);
          heightA = linalg_norm (vsub (cs ! 1) (cs ! 2));
          heightB = linalg_norm (vsub (cs ! 0) (cs ! 3));
          max_height = max (py_int heightA) (py_int heightB)
      in (max_width, max_height))"

definition transform ::
  "'img cv2 \<Rightarrow> (int \<times> int) option \<Rightarrow> 'img session
     \<Rightarrow> (error + addr \<times> mat3 option) \<times> 'img session" where
  \<comment> \<open>the result is the address of the warped image and \<^verbatim>\<open>H\<close>\<close>
  "transform cv output_size s =
     (if length (original_corners s) \<noteq> 4 then (Inl (ValueError NeedFourCornersFirst), s)
      else
        (let cs = float32 (original_corners s);
             (max_width, max_height) =
               (case output_size of None \<Rightarrow> compute_output_size cs | Some sz \<Rightarrow> sz);
             dst = float32 [(0, 0), (max_width - 1, 0),
                            (max_width - 1, max_height - 1), (0, max_height - 1)];
             H = findHomography cv cs dst
         in case warpPerspective cv (heap s ! original_image s) H (max_width, max_height) of
              Inl e \<Rightarrow> (Inl e, s)
            | Inr warped \<Rightarrow> (Inr (length (heap s), H), s \<lparr> heap := heap s @ [warped] \<rparr>)))"

subsection \<open>Sessions and their invariant\<close>

text \<open>
  The states a session object can be in: the one \<^verbatim>\<open>__init__\<close> builds from a loaded image,
  and every state reached from it by calls of \<^verbatim>\<open>mouse_callback\<close> and \<^verbatim>\<open>transform\<close>.
\<close>

inductive_set sessions :: "'img cv2 \<Rightarrow> 'img \<Rightarrow> 'img session set"
  for cv :: "'img cv2" and img :: 'img where
  start: "init cv (Some img) = Inr s \<Longrightarrow> s \<in> sessions cv img"
| click: "s \<in> sessions cv img \<Longrightarrow> mouse_callback cv event x y s \<in> sessions cv img"
| warp: "s \<in> sessions cv img \<Longrightarrow> snd (transform cv output_size s) \<in> sessions cv img"

text \<open>The positions of the left-button presses among the mouse events, in order.\<close>

definition clicks :: "mouse_event list \<Rightarrow> point list" where
  "clicks evs = map snd (filter (\<lambda>ev. fst ev = EVENT_LBUTTONDOWN) evs)"

text \<open>A preview point scaled by the factor 2.\<close>

definition to_source :: "point \<Rightarrow> point" where
  "to_source p = (2 * fst p, 2 * snd p)"

definition session_inv :: "'img cv2 \<Rightarrow> 'img \<Rightarrow> 'img session \<Rightarrow> bool" where
  "session_inv cv img s \<longleftrightarrow>
     scale_factor s = 2 \<and>
     length (corners s) \<le> 4 \<and>
     original_corners s = map to_source (corners s) \<and>
     (original_height s, original_width s) = shape cv img \<and>
     display_width s = original_width s div 2 \<and>
     display_height s = original_height s div 2 \<and>
     image s = 0 \<and> original_image s = 1 \<and> display_image s = 2 \<and>
     3 \<le> length (heap s) \<and> heap s ! 0 = img \<and> heap s ! 1 = img"

text \<open>
  Translation of a corner by a vector; coordinates that \<^verbatim>\<open>float32\<close> holds exactly together
  with their differences; and the exact Euclidean length of the edge between two corners.
\<close>

definition translate :: "point \<Rightarrow> point \<Rightarrow> point" where
  "translate t p = (fst p + fst t, snd p + snd t)"

definition pixel :: "point \<Rightarrow> bool" where
  "pixel p \<longleftrightarrow> 0 \<le> fst p \<and> fst p \<le> 2 ^ 24 \<and> 0 \<le> snd p \<and> snd p \<le> 2 ^ 24"

definition edge :: "point32 \<Rightarrow> point32 \<Rightarrow> real" where
  "edge p q = sqrt ((fst p - fst q)\<^sup>2 + (snd p - snd q)\<^sup>2)"

subsection \<open>Exact homographies\<close>

fun apply_mat3 :: "mat3 \<Rightarrow> point32 \<Rightarrow> real \<times> real \<times> real" where
  "apply_mat3 (Mat3 a b c d e f g h i) (x, y) =
     (a * x + b * y + c, d * x + e * y + f, g * x + h * y + i)"

fun bottom_right :: "mat3 \<Rightarrow> real" where
  "bottom_right (Mat3 a b c d e f g h i) = i"

definition maps_to :: "mat3 \<Rightarrow> point32 \<Rightarrow> point32 \<Rightarrow> bool" where
  "maps_to M p q =
     (case apply_mat3 M p of (u, v, w) \<Rightarrow> w \<noteq> 0 \<and> u = fst q * w \<and> v = snd q * w)"

definition exact_homography :: "mat3 \<Rightarrow> point32 list \<Rightarrow> point32 list \<Rightarrow> bool" where
  \<comment> \<open>Modelled from the spec: the solver behind \<^verbatim>\<open>cv2.findHomography\<close> is not in the
    repository. Section 4.2: the projective transform "mapping each source corner to its
    destination counterpart exactly", "normalized so the bottom-right homogeneous entry
    is 1".\<close>
  "exact_homography M src dst \<longleftrightarrow> list_all2 (maps_to M) src dst \<and> bottom_right M = 1"

definition identity3 :: mat3 where
  "identity3 = Mat3 1 0 0  0 1 0  0 0 1"

subsection \<open>A library instance to run the model\<close>

text \<open>
  An image is its height, its width and the drawing commands applied to it; the instance
  finds the identity homography when source and destination coincide and none otherwise.
  \<open>fresh\<close> is the session of a 640 x 480 image, \<open>started\<close> the session after one click,
  \<open>marked\<close> the session after seven mouse events, \<open>unit_square\<close> a session object whose
  source corners are those of the square scenario, and \<open>wide\<close> the session of a 6000 x 4000
  image. \<open>collinear\<close> is the session after clicks on the four collinear points of the
  degenerate scenario. \<open>fitting_cv2\<close> is the same library with a solver that returns a matrix
  for every correspondence, as a least-squares fit does, and \<open>coincident\<close> its session
  after three clicks on the same point and a fourth elsewhere.
\<close>

type_synonym sketch = "nat \<times> nat \<times> draw_op list"

definition sketch_cv2 :: "sketch cv2" where
  "sketch_cv2 =
     \<lparr> shape = (\<lambda>(h, w, ops). (h, w)),
       resize = (\<lambda>(h, w, ops) (w', h').
                   if w' = 0 \<or> h' = 0 then Inl Cv2Error else Inr (h', w', ops)),
       draw = (\<lambda>op (h, w, ops). (h, w, ops @ [op])),
       findHomography = (\<lambda>src dst. if src = dst then Some identity3 else None),
       warpPerspective = (\<lambda>img H (w, h).
                   case H of None \<Rightarrow> Inl Cv2Error
                   | Some M \<Rightarrow> if w \<le> 0 \<or> h \<le> 0 then Inl Cv2Error
                              else Inr (nat h, nat w, [])) \<rparr>"

definition photo :: sketch where
  "photo = (480, 640, [])"

definition fresh :: "sketch session" where
  "fresh =
     \<lparr> heap = [photo, photo, (240, 320, [])],
       image = 0, original_image = 1, display_image = 2,
       original_height = 480, original_width = 640,
       display_width = 320, display_height = 240,
       scale_factor = 2, corners = [], original_corners = [] \<rparr>"

definition marked :: "sketch session" where
  "marked = waitKey sketch_cv2
     [(1, 0, 0), (0, 50, 50), (1, 50, 0), (1, 50, 50), (2, 5, 5), (1, 0, 50), (1, 60, 60)] fresh"

definition started :: "sketch session" where
  "started = mouse_callback sketch_cv2 EVENT_LBUTTONDOWN 10 20 fresh"

definition collinear :: "sketch session" where
  "collinear = waitKey sketch_cv2 [(1, 0, 0), (1, 5, 0), (1, 10, 0), (1, 15, 0)] fresh"

definition fitting_cv2 :: "sketch cv2" where
  "fitting_cv2 = sketch_cv2 \<lparr> findHomography := (\<lambda>src dst. Some identity3) \<rparr>"

definition coincident :: "sketch session" where
  "coincident = waitKey fitting_cv2 [(1, 0, 0), (1, 0, 0), (1, 0, 0), (1, 3, 4)] fresh"

definition unit_square :: "sketch session" where
  "unit_square = fresh \<lparr> original_corners := [(0, 0), (99, 0), (99, 99), (0, 99)] \<rparr>"

text \<open>
  A \<^verbatim>\<open>float32\<close> array of four corners whose computed edge lengths are 80 (top), 100
  (bottom), 120 (left) and 130 (right): a trapezoid with parallel top and bottom edges (no
  four points with integer coordinates have these edges). And the corners of the clicks
  (0, 0), (2500, 50), (2500, 1550), (0, 1500), with top and bottom edges of length
  5000.9999, and a square of side 3.
\<close>

definition trapezoid :: "point32 list" where
  "trapezoid = [(0, 0), (80, 0), (9994239 / 65536, 3535871 / 32768),
                (3440639 / 65536, 3535871 / 32768)]"

definition square3 :: "point list" where
  "square3 = [(0, 0), (3, 0), (3, 3), (0, 3)]"

definition slanted :: "point list" where
  "slanted = [(0, 0), (5000, 100), (5000, 3100), (0, 3000)]"

definition wide :: "sketch session" where
  "wide =
     \<lparr> heap = [(4000, 6000, []), (4000, 6000, []), (2000, 3000, [])],
       image = 0, original_image = 1, display_image = 2,
       original_height = 4000, original_width = 6000,
       display_width = 3000, display_height = 2000,
       scale_factor = 2, corners = [], original_corners = [] \<rparr>"

section \<open>Basic facts\<close>

declare str.simps [simp del]

lemma str_1 [simp]: "str (Suc 0) = ''1''"
  by (subst str.simps) simp

lemma py_int_of_int [simp]: "py_int (real_of_int k) = k"
  by (simp add: py_int_def)

lemma py_int_numeral [simp]: "py_int (numeral n) = numeral n"
  by (simp add: py_int_def)

lemma py_int_0 [simp]: "py_int 0 = 0"
  by (simp add: py_int_def)

lemma py_int_nonneg: "0 \<le> r \<Longrightarrow> py_int r = \<lfloor>r\<rfloor>"
  by (simp add: py_int_def)

lemma py_int_double [simp]: "py_int (real_of_int k * 2) = 2 * k"
proof -
  have "real_of_int k * 2 = real_of_int (2 * k)" by simp
  then show ?thesis by (simp only: py_int_of_int)
qed

lemma floor_double: "\<lfloor>real_of_int k * 2\<rfloor> = 2 * k"
proof -
  have "real_of_int k * 2 = real_of_int (2 * k)" by simp
  then show ?thesis by (simp only: floor_of_int)
qed

lemma max_py_int:
  assumes "0 \<le> a" and "0 \<le> b"
  shows "max (py_int a) (py_int b) = \<lfloor>max a b\<rfloor>"
proof -
  have fl: "py_int a = \<lfloor>a\<rfloor>" "py_int b = \<lfloor>b\<rfloor>"
    using assms by (simp_all add: py_int_nonneg)
  show ?thesis
  proof (cases "a \<le> b")
    case True
    then have "\<lfloor>a\<rfloor> \<le> \<lfloor>b\<rfloor>" by (rule floor_mono)
    with True show ?thesis by (simp add: fl max_def)
  next
    case False
    then have "b \<le> a" by simp
    then have "\<lfloor>b\<rfloor> \<le> \<lfloor>a\<rfloor>" by (rule floor_mono)
    with False show ?thesis by (simp add: fl max_def)
  qed
qed

subsection \<open>The invariant of sessions\<close>

lemma init_inv: "init cv (Some img) = Inr s \<Longrightarrow> session_inv cv img s"
  by (auto simp: init_def session_inv_def Let_def split: prod.splits sum.splits)

lemma mouse_callback_inv:
  "session_inv cv img s \<Longrightarrow> session_inv cv img (mouse_callback cv event x y s)"
  by (auto simp: mouse_callback_def session_inv_def Let_def to_source_def)

lemma transform_inv:
  "session_inv cv img s \<Longrightarrow> session_inv cv img (snd (transform cv output_size s))"
  by (auto simp: transform_def session_inv_def Let_def nth_append split: prod.splits sum.splits)

lemma sessions_inv: "s \<in> sessions cv img \<Longrightarrow> session_inv cv img s"
  by (induction rule: sessions.induct) (auto intro: init_inv mouse_callback_inv transform_inv)

lemma waitKey_sessions: "s \<in> sessions cv img \<Longrightarrow> waitKey cv evs s \<in> sessions cv img"
proof (induction evs arbitrary: s)
  case Nil
  then show ?case by simp
next
  case (Cons ev evs)
  obtain event x y where ev: "ev = (event, x, y)" by (cases ev) auto
  from Cons.prems have "mouse_callback cv event x y s \<in> sessions cv img"
    by (rule sessions.click)
  then show ?case by (simp add: ev Cons.IH)
qed

subsection \<open>Clicks\<close>

lemma corners_click:
  "length (corners s) < 4 \<Longrightarrow>
     corners (mouse_callback cv EVENT_LBUTTONDOWN x y s) = corners s @ [(x, y)]"
  by (simp add: mouse_callback_def Let_def)

lemma mouse_callback_ignored:
  "event \<noteq> EVENT_LBUTTONDOWN \<or> 4 \<le> length (corners s) \<Longrightarrow> mouse_callback cv event x y s = s"
  by (auto simp: mouse_callback_def)

lemma corners_waitKey:
  "length (corners s) \<le> 4 \<Longrightarrow> corners (waitKey cv evs s) = take 4 (corners s @ clicks evs)"
proof (induction evs arbitrary: s)
  case Nil
  then show ?case by (simp add: clicks_def)
next
  case (Cons ev evs)
  obtain event x y where ev: "ev = (event, x, y)" by (cases ev) auto
  show ?case
  proof (cases "event = EVENT_LBUTTONDOWN \<and> length (corners s) < 4")
    case True
    then have c: "corners (mouse_callback cv event x y s) = corners s @ [(x, y)]"
      by (simp add: corners_click)
    from True have "4 - length (corners s) = Suc (3 - length (corners s))" by arith
    with True c Cons.IH [of "mouse_callback cv event x y s"] show ?thesis
      by (simp add: ev clicks_def)
  next
    case False
    with Cons.prems have same: "mouse_callback cv event x y s = s"
      by (intro mouse_callback_ignored) auto
    from False Cons.prems have "event \<noteq> EVENT_LBUTTONDOWN \<or> length (corners s) = 4" by auto
    with Cons.IH [of s] Cons.prems same show ?thesis
      by (auto simp: ev clicks_def)
  qed
qed

subsection \<open>Rounding to \<^verbatim>\<open>float32\<close>\<close>

lemma round_even_of_int [simp]: "round_even (real_of_int n) = n"
  by (simp add: round_even_def)

lemma round_even_nonneg: "0 \<le> x \<Longrightarrow> 0 \<le> round_even x"
  by (auto simp: round_even_def Let_def)

lemma f32_nonneg: "0 \<le> r \<Longrightarrow> 0 \<le> f32 r"
  by (auto simp: f32_def Let_def intro!: mult_nonneg_nonneg round_even_nonneg divide_nonneg_nonneg)

lemma f32_0 [simp]: "f32 0 = 0"
  by (simp add: f32_def)

text \<open>A number with at most 24 significant bits is not changed.\<close>

lemma f32_exact:
  assumes m: "m \<noteq> 0" and bound: "\<bar>m\<bar> < 2 ^ 24"
  shows "f32 (real_of_int m * 2 powr real_of_int k) = real_of_int m * 2 powr real_of_int k"
proof -
  let ?r = "real_of_int m * 2 powr real_of_int k"
  define j where "j = \<lfloor>log 2 \<bar>real_of_int m\<bar>\<rfloor>"
  have mpos: "0 < \<bar>real_of_int m\<bar>" using m by simp
  from mpos have jb: "2 powr real_of_int j \<le> \<bar>real_of_int m\<bar>"
      "\<bar>real_of_int m\<bar> < 2 powr (real_of_int j + 1)"
    using floor_log_eq_powr_iff [of "\<bar>real_of_int m\<bar>" 2 j] by (simp_all add: j_def)
  have "\<bar>real_of_int m\<bar> < 2 powr 24"
  proof -
    have "\<bar>real_of_int m\<bar> = real_of_int \<bar>m\<bar>" by simp
    also have "\<dots> < real_of_int (2 ^ 24)" using bound by (simp only: of_int_less_iff)
    also have "\<dots> = 2 powr 24" by simp
    finally show ?thesis .
  qed
  with jb(1) have lt: "2 powr real_of_int j < 2 powr 24" by (rule le_less_trans)
  have j23: "j \<le> 23"
  proof (rule ccontr)
    assume "\<not> j \<le> 23"
    then have "(24::real) \<le> real_of_int j" by simp
    then have "(2::real) powr 24 \<le> 2 powr real_of_int j" by (intro powr_mono) simp_all
    with lt show False by linarith
  qed
  have abs_r: "\<bar>?r\<bar> = \<bar>real_of_int m\<bar> * 2 powr real_of_int k"
    by (simp add: abs_mult)
  have "\<lfloor>log 2 \<bar>?r\<bar>\<rfloor> = j + k"
  proof -
    have pos: "0 < \<bar>?r\<bar>" using m by simp
    have lo: "2 powr real_of_int (j + k) \<le> \<bar>?r\<bar>"
      using jb(1) by (simp add: abs_r powr_add)
    have hi: "\<bar>?r\<bar> < 2 powr (real_of_int (j + k) + 1)"
    proof -
      have "\<bar>?r\<bar> < 2 powr (real_of_int j + 1) * 2 powr real_of_int k"
        unfolding abs_r using jb(2) by (simp add: mult_strict_right_mono)
      also have "\<dots> = 2 powr (real_of_int (j + k) + 1)"
        by (simp add: powr_add [symmetric] algebra_simps)
      finally show ?thesis .
    qed
    from pos lo hi show ?thesis
      using floor_log_eq_powr_iff [of "\<bar>?r\<bar>" 2 "j + k"] by simp
  qed
  then have q: "2 powr (real_of_int \<lfloor>log 2 \<bar>?r\<bar>\<rfloor> - 23) = 2 powr (real_of_int (j + k) - 23)"
    by simp
  define e where "e = real_of_int (j + k) - 23"
  define n where "n = nat (23 - j)"
  have kn: "real_of_int k - e = real n" and ne: "real n + e = real_of_int k"
    using j23 by (simp_all add: e_def n_def)
  have scale: "?r / 2 powr e = real_of_int (m * 2 ^ n)"
  proof -
    have "?r / 2 powr e = real_of_int m * (2 powr real_of_int k / 2 powr e)" by simp
    also have "2 powr real_of_int k / 2 powr e = 2 powr (real_of_int k - e)"
      by (simp only: powr_diff)
    also have "\<dots> = 2 ^ n" by (simp only: kn) (simp add: powr_realpow)
    finally show ?thesis by simp
  qed
  have r0: "?r \<noteq> 0" using m by simp
  have "f32 ?r = real_of_int (m * 2 ^ n) * 2 powr e"
    using r0 by (simp only: f32_def q Let_def e_def [symmetric] scale round_even_of_int if_False)
  also have "\<dots> = real_of_int m * (2 powr real n * 2 powr e)"
    by (simp add: powr_realpow)
  also have "2 powr real n * 2 powr e = 2 powr real_of_int k"
    by (simp only: powr_add [symmetric] ne)
  finally show ?thesis .
qed

lemma f32_int: "\<bar>m\<bar> < 2 ^ 24 \<Longrightarrow> f32 (real_of_int m) = real_of_int m"
  using f32_exact [of m 0] by (cases "m = 0") simp_all

lemma f32_even: "\<bar>m\<bar> < 2 ^ 24 \<Longrightarrow> f32 (real_of_int (2 * m)) = real_of_int (2 * m)"
  using f32_exact [of m 1] by (cases "m = 0") (simp_all add: mult.commute)

lemma f32_int_le: "\<bar>m\<bar> \<le> 2 ^ 24 \<Longrightarrow> f32 (real_of_int m) = real_of_int m"
proof (cases "\<bar>m\<bar> < 2 ^ 24")
  case True
  then show ?thesis by (rule f32_int)
next
  case False
  assume "\<bar>m\<bar> \<le> 2 ^ 24"
  with False have "m = 2 ^ 24 \<or> m = - (2 ^ 24)" by auto
  then show ?thesis
    using f32_exact [of 1 24] f32_exact [of "- 1" 24] by auto
qed

lemma f32_dyadic:
  "\<bar>m\<bar> < 2 ^ 24 \<Longrightarrow> f32 (real_of_int m / 2 ^ k) = real_of_int m / 2 ^ k"
proof (cases "m = 0")
  case True
  then show ?thesis by simp
next
  case False
  assume "\<bar>m\<bar> < 2 ^ 24"
  have "(2::real) powr real_of_int (- int k) = 1 / 2 ^ k"
    by (simp add: powr_minus_divide powr_realpow)
  with f32_exact [OF False \<open>\<bar>m\<bar> < 2 ^ 24\<close>, of "- int k"] show ?thesis by simp
qed

lemma f32_numeral [simp]: "numeral n < (2::int) ^ 24 \<Longrightarrow> f32 (numeral n) = numeral n"
  using f32_int [of "numeral n"] by simp

lemma f32_neg_numeral [simp]:
  "numeral n < (2::int) ^ 24 \<Longrightarrow> f32 (- numeral n) = - numeral n"
  using f32_int [of "- numeral n"] by simp

lemma f32_1 [simp]: "f32 1 = 1"
  using f32_int [of 1] by simp

text \<open>A number is rounded to the multiple of the last bit that is less than half a bit away.\<close>

lemma round_even_near:
  assumes "\<bar>x - real_of_int n\<bar> < 1 / 2"
  shows "round_even x = n"
proof (cases "real_of_int n \<le> x")
  case True
  with assms have "\<lfloor>x\<rfloor> = n" by (simp add: floor_eq_iff)
  with assms True show ?thesis by (simp add: round_even_def Let_def)
next
  case False
  with assms have fl: "\<lfloor>x\<rfloor> = n - 1" by (simp add: floor_eq_iff)
  from assms False have "1 / 2 < x - real_of_int (n - 1)" by simp
  with fl show ?thesis by (simp add: round_even_def Let_def)
qed

lemma f32_round:
  fixes e k :: nat
  assumes ek: "e + k = 23" and lo: "2 ^ e \<le> r" and hi: "r < 2 ^ Suc e"
    and near: "\<bar>r * 2 ^ k - real_of_int n\<bar> < 1 / 2"
  shows "f32 r = real_of_int n / 2 ^ k"
proof -
  have pos: "0 < r" using lo by (rule less_le_trans [rotated]) simp
  have "2 powr real_of_int (int e) \<le> r" "r < 2 powr (real_of_int (int e) + 1)"
    using lo hi by (simp_all add: powr_realpow powr_add)
  then have "\<lfloor>log 2 r\<rfloor> = int e"
    using floor_log_eq_powr_iff [of r 2 "int e"] pos by simp
  moreover have "real_of_int (int e) - 23 = - real k" using ek by simp
  ultimately have q: "2 powr (real_of_int \<lfloor>log 2 r\<rfloor> - 23) = 1 / 2 ^ k"
    by (simp add: powr_minus_divide powr_realpow)
  have "round_even (r * 2 ^ k) = n" using near by (rule round_even_near)
  then show ?thesis using pos by (simp add: f32_def q Let_def)
qed

text \<open>Above \<open>2^24\<close> only even integers are \<^verbatim>\<open>float32\<close> values; a tie goes to the even side.\<close>

lemma f32_16777219: "f32 16777219 = 16777220"
proof -
  have e: "\<lfloor>log 2 (16777219::real)\<rfloor> = 24"
    using floor_log_eq_powr_iff [of "16777219::real" 2 24] by simp
  have fl: "\<lfloor>(16777219::real) / 2\<rfloor> = 8388609" by (simp add: floor_eq_iff)
  have "round_even (16777219 / 2) = 8388610"
    by (simp add: round_even_def fl Let_def)
  then show ?thesis by (simp add: f32_def e)
qed

lemma f32_16777216 [simp]: "f32 16777216 = 16777216"
  using f32_int_le [of 16777216] by simp

text \<open>The square root of \<open>5001\<^sup>2 - 1\<close> is nearer to 5001 than to the next \<^verbatim>\<open>float32\<close> below.\<close>

lemma f32_sqrt_25010000: "f32 (sqrt 25010000) = 5001"
proof -
  let ?r = "sqrt 25010000"
  have lo: "4096 \<le> ?r" by (rule real_le_rsqrt) simp
  have hi: "?r < 8192" by (rule real_less_lsqrt) simp_all
  have pos: "0 < ?r" using lo by simp
  have e: "\<lfloor>log 2 ?r\<rfloor> = 12"
    using floor_log_eq_powr_iff [of ?r 2 12] lo hi pos by simp
  have "(2::real) powr (12 - 23) = 2 powr (- 11)" by simp
  also have "\<dots> = 1 / 2048" by (simp add: powr_minus_divide)
  finally have q: "2 powr (real_of_int \<lfloor>log 2 ?r\<rfloor> - 23) = 1 / 2048"
    by (simp add: e)
  have below: "?r < 5001" by (rule real_less_lsqrt) simp_all
  have above: "20484095 / 4096 < ?r" by (rule real_less_rsqrt) (simp add: power2_eq_square)
  have fl: "\<lfloor>?r * 2048\<rfloor> = 10242047"
    using below above by (simp add: floor_eq_iff)
  have "round_even (?r * 2048) = 10242048"
    using above by (simp add: round_even_def fl Let_def)
  then show ?thesis
    using pos by (simp add: f32_def q)
qed

subsection \<open>Output size\<close>

lemma dot32_nonneg: "0 \<le> dot32 v"
  by (simp add: dot32_def f32_nonneg)

lemma linalg_norm_nonneg: "0 \<le> linalg_norm v"
  unfolding linalg_norm_def by (rule f32_nonneg) (simp add: dot32_nonneg)

lemma compute_output_size_norms:
  "compute_output_size [c0, c1, c2, c3] =
     (\<lfloor>max (linalg_norm (vsub c2 c3)) (linalg_norm (vsub c1 c0))\<rfloor>,
      \<lfloor>max (linalg_norm (vsub c1 c2)) (linalg_norm (vsub c0 c3))\<rfloor>)"
  by (simp add: compute_output_size_def Let_def max_py_int linalg_norm_nonneg)

lemma transform_four:
  assumes "length (original_corners s) = 4"
  shows "transform cv (Some (W, H)) s =
           (let M = findHomography cv (float32 (original_corners s))
                      (float32 [(0, 0), (W - 1, 0), (W - 1, H - 1), (0, H - 1)])
            in case warpPerspective cv (heap s ! original_image s) M (W, H) of
                 Inl e \<Rightarrow> (Inl e, s)
               | Inr warped \<Rightarrow> (Inr (length (heap s), M), s \<lparr> heap := heap s @ [warped] \<rparr>))"
  using assms by (simp add: transform_def Let_def)

lemma transform_None:
  "transform cv None s = transform cv (Some (compute_output_size (float32 (original_corners s)))) s"
  by (simp add: transform_def Let_def split: prod.splits)

lemma sqrt_square: "0 \<le> r \<Longrightarrow> sqrt (r * r) = r"
  by simp

lemma linalg_norm_exact:
  assumes "f32 (x * x) = x * x" and "f32 (y * y) = y * y" and "f32 (x * x + y * y) = n * n"
    and "f32 n = n" and "0 \<le> n"
  shows "linalg_norm (x, y) = n"
  using assms by (simp add: linalg_norm_def dot32_def sqrt_square)

text \<open>Pixel coordinates are converted exactly, and so are their differences.\<close>

lemma float32_pixels:
  assumes "pixel (a, b)" and "pixel (c, d)"
  shows "vsub (f32 (real_of_int a), f32 (real_of_int b))
              (f32 (real_of_int c), f32 (real_of_int d)) =
         (real_of_int (a - c), real_of_int (b - d))"
proof -
  have conv: "f32 (real_of_int k) = real_of_int k" if "0 \<le> k" "k \<le> 2 ^ 24" for k :: int
    using that by (intro f32_int_le) simp
  have diff: "f32 (real_of_int a - real_of_int b) = real_of_int (a - b)"
    if "0 \<le> a" "a \<le> 2 ^ 24" "0 \<le> b" "b \<le> 2 ^ 24" for a b :: int
  proof -
    from that have "\<bar>a - b\<bar> \<le> 2 ^ 24" by simp
    then have "f32 (real_of_int (a - b)) = real_of_int (a - b)" by (rule f32_int_le)
    then show ?thesis by simp
  qed
  from assms show ?thesis
    by (simp add: pixel_def vsub_def conv diff)
qed

lemma compute_output_size_pixels:
  assumes "list_all pixel [p0, p1, p2, p3]"
  shows "compute_output_size (float32 [p0, p1, p2, p3]) =
     (max (py_int (linalg_norm (real_of_int (fst p2 - fst p3), real_of_int (snd p2 - snd p3))))
          (py_int (linalg_norm (real_of_int (fst p1 - fst p0), real_of_int (snd p1 - snd p0)))),
      max (py_int (linalg_norm (real_of_int (fst p1 - fst p2), real_of_int (snd p1 - snd p2))))
          (py_int (linalg_norm (real_of_int (fst p0 - fst p3), real_of_int (snd p0 - snd p3)))))"
  using assms
  by (cases p0; cases p1; cases p2; cases p3)
     (simp add: compute_output_size_def float32_def Let_def float32_pixels)

text \<open>The norms of the examples.\<close>

lemma small_norms:
  "linalg_norm (3, 0) = 3" "linalg_norm (0, - 3) = 3" "linalg_norm (4, 0) = 4"
  "linalg_norm (80, 0) = 80" "linalg_norm (100, 0) = 100"
  "linalg_norm (- 6, - 8) = 10" "linalg_norm (0, 0) = 0"
  by (rule linalg_norm_exact; simp)+

lemma trapezoid_norms:
  "linalg_norm (vsub (trapezoid ! 1) (trapezoid ! 0)) = 80"
  "linalg_norm (vsub (trapezoid ! 2) (trapezoid ! 3)) = 100"
  "linalg_norm (vsub (trapezoid ! 0) (trapezoid ! 3)) = 120"
  "linalg_norm (vsub (trapezoid ! 1) (trapezoid ! 2)) = 130"
proof -
  have x: "f32 (- (3440639 / 65536)) = - (3440639 / 65536)"
    using f32_dyadic [of "- 3440639" 16] by simp
  have x20: "f32 (- (4751359 / 65536)) = - (4751359 / 65536)"
    using f32_dyadic [of "- 4751359" 16] by simp
  have h: "f32 (- (3535871 / 32768)) = - (3535871 / 32768)"
    using f32_dyadic [of "- 3535871" 15] by simp
  have xx: "f32 (11837996728321 / 4294967296) = 11289593 / 4096"
    using f32_round [of 11 12 "11837996728321 / 4294967296" 11289593] by simp
  have hh: "f32 (12502383728641 / 1073741824) = 5961601 / 512"
    using f32_round [of 13 10 "12502383728641 / 1073741824" 11923202] by simp
  have yy: "f32 (22575412346881 / 4294967296) = 10764795 / 2048"
    using f32_round [of 12 11 "22575412346881 / 4294967296" 10764795] by simp
  have s1: "f32 (58982401 / 4096) = 14400"
    using f32_round [of 13 10 "58982401 / 4096" 14745600] by simp
  have s2: "f32 (34611199 / 2048) = 16900"
    using f32_round [of 14 9 "34611199 / 2048" 8652800] by simp
  have r120: "sqrt 14400 = 120" using sqrt_square [of 120] by simp
  have r130: "sqrt 16900 = 130" using sqrt_square [of 130] by simp
  show "linalg_norm (vsub (trapezoid ! 1) (trapezoid ! 0)) = 80"
    by (simp add: trapezoid_def vsub_def small_norms)
  show "linalg_norm (vsub (trapezoid ! 2) (trapezoid ! 3)) = 100"
    by (simp add: trapezoid_def vsub_def small_norms)
  show "linalg_norm (vsub (trapezoid ! 0) (trapezoid ! 3)) = 120"
    by (simp add: trapezoid_def vsub_def x h linalg_norm_def dot32_def xx hh s1 r120)
  show "linalg_norm (vsub (trapezoid ! 1) (trapezoid ! 2)) = 130"
    by (simp add: trapezoid_def vsub_def x20 h linalg_norm_def dot32_def yy hh s2 r130)
qed

lemma slanted_norms:
  "linalg_norm (5000, 100) = 5001" "linalg_norm (0, - 3000) = 3000"
proof -
  have i: "f32 25000000 = 25000000" "f32 25010000 = 25010000"
    using f32_even [of 12500000] f32_even [of 12505000] by simp_all
  show "linalg_norm (5000, 100) = 5001"
    by (simp add: linalg_norm_def dot32_def i f32_sqrt_25010000)
  show "linalg_norm (0, - 3000) = 3000"
    by (rule linalg_norm_exact) simp_all
qed

lemma slanted_edges:
  "\<lfloor>edge (5000, 100) (0, 0)\<rfloor> = 5000" "\<lfloor>edge (5000, 3100) (0, 3000)\<rfloor> = 5000"
  "edge (5000, 100) (5000, 3100) = 3000" "edge (0, 0) (0, 3000) = 3000"
proof -
  have lo: "5000 \<le> sqrt 25010000" by (rule real_le_rsqrt) simp
  have hi: "sqrt 25010000 < 5001" by (rule real_less_lsqrt) simp_all
  from lo hi have fl: "\<lfloor>sqrt 25010000\<rfloor> = 5000" by (simp add: floor_eq_iff)
  have s3000: "sqrt 9000000 = 3000" using sqrt_square [of 3000] by simp
  show "\<lfloor>edge (5000, 100) (0, 0)\<rfloor> = 5000" by (simp add: edge_def fl)
  show "\<lfloor>edge (5000, 3100) (0, 3000)\<rfloor> = 5000" by (simp add: edge_def fl)
  show "edge (5000, 100) (5000, 3100) = 3000" by (simp add: edge_def s3000)
  show "edge (0, 0) (0, 3000) = 3000" by (simp add: edge_def s3000)
qed

subsection \<open>The identity is the only exact homography of the square onto itself\<close>

lemma identity_unique:
  assumes "exact_homography M [(0, 0), (99, 0), (99, 99), (0, 99)]
             [(0, 0), (99, 0), (99, 99), (0, 99)]"
  shows "M = identity3"
proof (cases M)
  case (Mat3 a b c d e f g h i)
  from assms have i: "i = 1" and c: "c = 0" and f: "f = 0"
    by (simp_all add: exact_homography_def maps_to_def Mat3)
  from assms have e1: "a * 99 + c = 99 * (g * 99 + i)" and e2: "d * 99 + f = 0"
    and e3: "b * 99 + c = 0" and e4: "e * 99 + f = 99 * (h * 99 + i)"
    and e5: "a * 99 + b * 99 + c = 99 * (g * 99 + h * 99 + i)"
    and e6: "d * 99 + e * 99 + f = 99 * (g * 99 + h * 99 + i)"
    by (simp_all add: exact_homography_def maps_to_def Mat3)
  from e2 f have d: "d = 0" by simp
  from e3 c have b: "b = 0" by simp
  from e1 e5 b c i have h: "h = 0" by simp
  from e4 e6 d f i have g: "g = 0" by simp
  from e1 c i g have a: "a = 1" by simp
  from e4 f i h have e: "e = 1" by simp
  show ?thesis by (simp add: Mat3 identity3_def a b c d e f g h i)
qed

text \<open>
  Four points on a line cannot be mapped exactly to the corners of a rectangle: here the
  third point would need a vanishing homogeneous coordinate.
\<close>

lemma no_exact_homography_collinear:
  "\<not> exact_homography M [(0, 0), (10, 0), (20, 0), (30, 0)] [(0, 0), (9, 0), (9, 29), (0, 29)]"
proof
  assume ex: "exact_homography M [(0, 0), (10, 0), (20, 0), (30, 0)]
      [(0, 0), (9, 0), (9, 29), (0, 29)]"
  obtain a b c d e f g h i where M: "M = Mat3 a b c d e f g h i" by (cases M)
  from ex have f: "f = 0" and d: "d * 10 + f = 0"
    and w: "g * 20 + i \<noteq> 0" and v: "d * 20 + f = 29 * (g * 20 + i)"
    by (auto simp: exact_homography_def maps_to_def M)
  from d f have "d = 0" by simp
  with v f w show False by simp
qed

subsection \<open>The example sessions\<close>

lemma fresh_init: "init sketch_cv2 (Some photo) = Inr fresh"
  by (simp add: init_def sketch_cv2_def photo_def fresh_def)

lemma fresh_session: "fresh \<in> sessions sketch_cv2 photo"
  by (rule sessions.start) (rule fresh_init)

lemma started_session: "started \<in> sessions sketch_cv2 photo"
  unfolding started_def by (rule sessions.click) (rule fresh_session)

lemma started_eval:
  "started = fresh \<lparr> corners := [(10, 20)], original_corners := [(20, 40)],
       heap := [photo, photo,
                (240, 320, [Circle (10, 20) 5 (0, 255, 0) (- 1),
                            PutText ''1'' (20, 10) 0 (7 / 10) (255, 0, 0) 2])] \<rparr>"
  by (simp add: started_def fresh_def mouse_callback_def Let_def sketch_cv2_def
      FONT_HERSHEY_SIMPLEX_def)

lemma marked_session: "marked \<in> sessions sketch_cv2 photo"
  unfolding marked_def by (rule waitKey_sessions) (rule fresh_session)

lemma marked_corners: "corners marked = [(0, 0), (50, 0), (50, 50), (0, 50)]"
proof -
  have "corners marked = take 4 (corners fresh @ clicks
     [(1, 0, 0), (0, 50, 50), (1, 50, 0), (1, 50, 50), (2, 5, 5), (1, 0, 50), (1, 60, 60)])"
    unfolding marked_def by (rule corners_waitKey) (simp add: fresh_def)
  also have "\<dots> = [(0, 0), (50, 0), (50, 50), (0, 50)]"
    by (simp add: fresh_def clicks_def EVENT_LBUTTONDOWN_def)
  finally show ?thesis .
qed

lemma marked_source: "original_corners marked = [(0, 0), (100, 0), (100, 100), (0, 100)]"
  using sessions_inv [OF marked_session] marked_corners
  by (simp add: session_inv_def to_source_def)

lemma collinear_session: "collinear \<in> sessions sketch_cv2 photo"
  unfolding collinear_def by (rule waitKey_sessions) (rule fresh_session)

lemma collinear_source: "original_corners collinear = [(0, 0), (10, 0), (20, 0), (30, 0)]"
proof -
  let ?evs = "[(1, 0, 0), (1, 5, 0), (1, 10, 0), (1, 15, 0)] :: mouse_event list"
  have "session_inv sketch_cv2 photo collinear"
    using collinear_session by (rule sessions_inv)
  then have "original_corners collinear = map to_source (corners collinear)"
    unfolding session_inv_def by blast
  also have "corners collinear = take 4 (corners fresh @ clicks ?evs)"
    unfolding collinear_def by (rule corners_waitKey) (simp add: fresh_def)
  also have "map to_source (take 4 (corners fresh @ clicks ?evs)) =
      [(0, 0), (10, 0), (20, 0), (30, 0)]"
    by (simp add: fresh_def clicks_def EVENT_LBUTTONDOWN_def to_source_def)
  finally show ?thesis .
qed

lemma fitting_init: "init fitting_cv2 (Some photo) = Inr fresh"
  by (simp add: init_def fitting_cv2_def sketch_cv2_def photo_def fresh_def)

lemma coincident_session: "coincident \<in> sessions fitting_cv2 photo"
  unfolding coincident_def
  by (rule waitKey_sessions) (rule sessions.start, rule fitting_init)

lemma coincident_source: "original_corners coincident = [(0, 0), (0, 0), (0, 0), (6, 8)]"
proof -
  let ?evs = "[(1, 0, 0), (1, 0, 0), (1, 0, 0), (1, 3, 4)] :: mouse_event list"
  have "session_inv fitting_cv2 photo coincident"
    using coincident_session by (rule sessions_inv)
  then have "original_corners coincident = map to_source (corners coincident)"
    unfolding session_inv_def by blast
  also have "corners coincident = take 4 (corners fresh @ clicks ?evs)"
    unfolding coincident_def by (rule corners_waitKey) (simp add: fresh_def)
  also have "map to_source (take 4 (corners fresh @ clicks ?evs)) =
      [(0, 0), (0, 0), (0, 0), (6, 8)]"
    by (simp add: fresh_def clicks_def EVENT_LBUTTONDOWN_def to_source_def)
  finally show ?thesis .
qed

lemma coincident_image: "heap coincident ! original_image coincident = photo"
  using sessions_inv [OF coincident_session] by (simp add: session_inv_def)

text \<open>The corners \<open>slanted\<close> are those of four clicks inside the preview of a 6000 x 4000 image.\<close>

lemma wide_init: "init sketch_cv2 (Some (4000, 6000, [])) = Inr wide"
  by (simp add: init_def sketch_cv2_def wide_def)

lemma slanted_clicked:
  "original_corners
     (waitKey sketch_cv2 [(1, 0, 0), (1, 2500, 50), (1, 2500, 1550), (1, 0, 1500)] wide) = slanted"
proof -
  let ?evs = "[(1, 0, 0), (1, 2500, 50), (1, 2500, 1550), (1, 0, 1500)] :: mouse_event list"
  have "wide \<in> sessions sketch_cv2 (4000, 6000, [])"
    by (rule sessions.start) (rule wide_init)
  then have "waitKey sketch_cv2 ?evs wide \<in> sessions sketch_cv2 (4000, 6000, [])"
    by (rule waitKey_sessions)
  then have "session_inv sketch_cv2 (4000, 6000, []) (waitKey sketch_cv2 ?evs wide)"
    by (rule sessions_inv)
  then have "original_corners (waitKey sketch_cv2 ?evs wide) =
      map to_source (corners (waitKey sketch_cv2 ?evs wide))"
    unfolding session_inv_def by blast
  also have "corners (waitKey sketch_cv2 ?evs wide) = take 4 (corners wide @ clicks ?evs)"
    by (rule corners_waitKey) (simp add: wide_def)
  also have "map to_source (take 4 (corners wide @ clicks ?evs)) = slanted"
    by (simp add: wide_def clicks_def EVENT_LBUTTONDOWN_def to_source_def slanted_def)
  finally show ?thesis .
qed

section \<open>The claims\<close>

subsection \<open>Coordinate mapping\<close>

text \<open>
  C1. In every session with fewer than four registered points, a left-button click at
  the preview point \<open>(x, y)\<close> appends \<open>(x, y)\<close> to the preview list and
  \<open>(floor (x * 2.0), floor (y * 2.0))\<close> to the source list (the scale factor of a session
  is 2.0, and \<^verbatim>\<open>int\<close> truncates the product); a click at (50, 80) stores (100, 160).
\<close>

theorem C1_register_click_truncates:
  assumes "s \<in> sessions cv img" and "length (corners s) < 4"
  shows "scale_factor s = 2 \<and>
         original_corners (mouse_callback cv EVENT_LBUTTONDOWN x y s) =
           original_corners s @ [(\<lfloor>real_of_int x * 2\<rfloor>, \<lfloor>real_of_int y * 2\<rfloor>)] \<and>
         corners (mouse_callback cv EVENT_LBUTTONDOWN x y s) = corners s @ [(x, y)] \<and>
         original_corners (mouse_callback cv EVENT_LBUTTONDOWN 50 80 s) =
           original_corners s @ [(100, 160)]"
proof -
  from assms(1) have k: "scale_factor s = 2"
    using sessions_inv [of s cv img] by (simp add: session_inv_def)
  have stored: "original_corners (mouse_callback cv EVENT_LBUTTONDOWN a b s) =
      original_corners s @ [(2 * a, 2 * b)]" for a b
    using assms(2) k by (simp add: mouse_callback_def Let_def)
  show ?thesis
    using k stored [of x y] stored [of 50 80] corners_click [OF assms(2)]
    by (simp add: floor_double)
qed

theorem C1_witness:
  "fresh \<in> sessions sketch_cv2 photo \<and> length (corners fresh) < 4 \<and>
   original_corners (mouse_callback sketch_cv2 EVENT_LBUTTONDOWN 7 3 fresh) = [(14, 6)] \<and>
   original_corners (mouse_callback sketch_cv2 EVENT_LBUTTONDOWN 50 80 fresh) = [(100, 160)]"
proof -
  have len: "length (corners fresh) < 4" by (simp add: fresh_def)
  have "\<lfloor>real_of_int 7 * 2\<rfloor> = (14::int)" "\<lfloor>real_of_int 3 * 2\<rfloor> = (6::int)" by simp_all
  with C1_register_click_truncates [OF fresh_session len, of 7 3] fresh_session len
  show ?thesis by (simp add: fresh_def)
qed

text \<open>
  C5. In every session both point lists hold at most four points, and the callback
  invoked when four points are registered returns the session as it is: no error, both
  lists and both buffers unchanged.
\<close>

theorem C5_capacity:
  assumes "s \<in> sessions cv img"
  shows "length (corners s) \<le> 4 \<and> length (original_corners s) \<le> 4 \<and>
         (length (corners s) = 4 \<longrightarrow> mouse_callback cv event x y s = s)"
proof -
  from assms have "session_inv cv img s" by (rule sessions_inv)
  then have "length (corners s) \<le> 4" "length (original_corners s) \<le> 4"
    by (simp_all add: session_inv_def)
  moreover have "length (corners s) = 4 \<longrightarrow> mouse_callback cv event x y s = s"
    by (simp add: mouse_callback_def)
  ultimately show ?thesis by simp
qed

theorem C5_witness:
  "marked \<in> sessions sketch_cv2 photo \<and> length (corners marked) = 4 \<and>
   mouse_callback sketch_cv2 EVENT_LBUTTONDOWN 9 9 marked = marked"
  using C5_capacity [OF marked_session, of EVENT_LBUTTONDOWN 9 9] marked_session marked_corners
  by simp

text \<open>
  C9. In every session the preview dimensions are the halved source dimensions (rounded
  down) and the scale factor is 2, so every stored source coordinate is even; a click
  inside the preview is mapped to a point with \<open>x \<le> original_width - 2\<close> and
  \<open>y \<le> original_height - 2\<close>.
\<close>

theorem C9_even_and_inside:
  assumes "s \<in> sessions cv img"
  shows "(original_height s, original_width s) = shape cv img \<and>
         display_width s = original_width s div 2 \<and>
         display_height s = original_height s div 2 \<and>
         scale_factor s = 2 \<and>
         (\<forall>p \<in> set (original_corners s). even (fst p) \<and> even (snd p)) \<and>
         (length (corners s) < 4 \<and> 0 \<le> x \<and> x < int (display_width s) \<and>
          0 \<le> y \<and> y < int (display_height s) \<longrightarrow>
            (\<exists>px py. original_corners (mouse_callback cv EVENT_LBUTTONDOWN x y s) =
                       original_corners s @ [(px, py)] \<and>
                     even px \<and> even py \<and>
                     0 \<le> px \<and> px \<le> int (original_width s) - 2 \<and>
                     0 \<le> py \<and> py \<le> int (original_height s) - 2))"
proof -
  from assms have inv: "session_inv cv img s" by (rule sessions_inv)
  then have dims: "(original_height s, original_width s) = shape cv img"
      "display_width s = original_width s div 2"
      "display_height s = original_height s div 2" "scale_factor s = 2"
    by (simp_all add: session_inv_def)
  from inv have "original_corners s = map to_source (corners s)"
    by (simp add: session_inv_def)
  then have ev: "\<forall>p \<in> set (original_corners s). even (fst p) \<and> even (snd p)"
    by (auto simp: to_source_def)
  have inside: "\<exists>px py. original_corners (mouse_callback cv EVENT_LBUTTONDOWN x y s) =
                       original_corners s @ [(px, py)] \<and>
                     even px \<and> even py \<and>
                     0 \<le> px \<and> px \<le> int (original_width s) - 2 \<and>
                     0 \<le> py \<and> py \<le> int (original_height s) - 2"
    if len: "length (corners s) < 4" and x: "0 \<le> x" "x < int (display_width s)"
      and y: "0 \<le> y" "y < int (display_height s)"
  proof -
    have st: "original_corners (mouse_callback cv EVENT_LBUTTONDOWN x y s) =
        original_corners s @ [(2 * x, 2 * y)]"
      using len dims(4) by (simp add: mouse_callback_def Let_def)
    from x dims(2) have "2 * x \<le> int (original_width s) - 2" by (simp add: zdiv_int)
    moreover from y dims(3) have "2 * y \<le> int (original_height s) - 2" by (simp add: zdiv_int)
    ultimately show ?thesis using st x y by simp
  qed
  with dims ev show ?thesis by blast
qed

theorem C9_witness:
  "started \<in> sessions sketch_cv2 photo \<and> length (corners started) < 4 \<and>
   original_corners started = [(20, 40)] \<and>
   (0::int) \<le> 319 \<and> 319 < int (display_width started) \<and>
   (0::int) \<le> 239 \<and> 239 < int (display_height started) \<and>
   original_width started = 640 \<and> original_height started = 480 \<and>
   original_corners (mouse_callback sketch_cv2 EVENT_LBUTTONDOWN 319 239 started) =
     [(20, 40), (638, 478)]"
proof -
  have e: "length (corners started) < 4" "original_corners started = [(20, 40)]"
    "319 < int (display_width started)" "239 < int (display_height started)"
    "original_width started = 640" "original_height started = 480"
    by (simp_all add: started_eval) (simp_all add: fresh_def)
  from C9_even_and_inside [OF started_session, of 319 239] e
  obtain px py where st:
    "original_corners (mouse_callback sketch_cv2 EVENT_LBUTTONDOWN 319 239 started) =
       [(20, 40), (px, py)]"
    and bound: "px \<le> 638" "py \<le> 478" "0 \<le> px" "0 \<le> py" by auto
  have "original_corners (mouse_callback sketch_cv2 EVENT_LBUTTONDOWN 319 239 started) =
      [(20, 40), (638, 478)]"
    using e by (simp add: mouse_callback_def Let_def started_eval) (simp add: fresh_def)
  with e st bound started_session show ?thesis by simp
qed

subsection \<open>Finishing the selection\<close>

text \<open>
  C3. After any mouse events on a new session, the registered points are the first four
  clicks, in click order, and their doubles. \<^verbatim>\<open>select_corners\<close> raises the
  \<^verbatim>\<open>ValueError\<close> of source line 96 (the spec's IncompleteSelectionError) when fewer than
  four points are registered; with four registered points it returns the source-space
  points, a corner set of length 4.
\<close>

theorem C3_select_corners:
  assumes "init cv (Some img) = Inr s0" and "s = waitKey cv evs s0"
  shows "corners s = take 4 (clicks evs) \<and>
         original_corners s = map to_source (take 4 (clicks evs)) \<and>
         (length (corners s) < 4 \<longrightarrow>
            select_corners cv evs s0 = (Inl (ValueError NeedFourCorners), s)) \<and>
         (length (corners s) = 4 \<longrightarrow>
            select_corners cv evs s0 = (Inr (float32 (original_corners s)), s) \<and>
            length (float32 (original_corners s)) = 4)"
proof -
  from assms(1) have s0: "s0 \<in> sessions cv img" by (rule sessions.start)
  from assms(1) have "corners s0 = []"
    by (auto simp: init_def Let_def split: prod.splits sum.splits)
  then have c: "corners s = take 4 (clicks evs)"
    using corners_waitKey [of s0 cv evs] assms(2) by simp
  from s0 have "s \<in> sessions cv img" unfolding assms(2) by (rule waitKey_sessions)
  then have "session_inv cv img s" by (rule sessions_inv)
  then have oc: "original_corners s = map to_source (corners s)"
    by (simp add: session_inv_def)
  show ?thesis
    using c oc assms(2) by (simp add: select_corners_def Let_def float32_def)
qed

theorem C3_witness:
  "init sketch_cv2 (Some photo) = Inr fresh \<and>
   select_corners sketch_cv2
     [(1, 0, 0), (0, 50, 50), (1, 50, 0), (1, 50, 50), (2, 5, 5), (1, 0, 50), (1, 60, 60)] fresh =
     (Inr [(0, 0), (100, 0), (100, 100), (0, 100)], marked) \<and>
   fst (select_corners sketch_cv2 [(1, 10, 20), (1, 110, 20), (0, 3, 3), (1, 110, 70)] fresh) =
     Inl (ValueError NeedFourCorners)"
proof -
  let ?four = "[(1, 0, 0), (0, 50, 50), (1, 50, 0), (1, 50, 50), (2, 5, 5), (1, 0, 50), (1, 60, 60)]
    :: mouse_event list"
  let ?three = "[(1, 10, 20), (1, 110, 20), (0, 3, 3), (1, 110, 70)] :: mouse_event list"
  have c4: "take 4 (clicks ?four) = [(0, 0), (50, 0), (50, 50), (0, 50)]"
    by (simp add: clicks_def EVENT_LBUTTONDOWN_def)
  have c3: "take 4 (clicks ?three) = [(10, 20), (110, 20), (110, 70)]"
    by (simp add: clicks_def EVENT_LBUTTONDOWN_def)
  have m: "marked = waitKey sketch_cv2 ?four fresh" by (simp add: marked_def)
  from C3_select_corners [OF fresh_init m] c4
  have a: "select_corners sketch_cv2 ?four fresh =
      (Inr [(0, 0), (100, 0), (100, 100), (0, 100)], marked)"
    by (simp add: float32_def to_source_def)
  from C3_select_corners [OF fresh_init refl, of ?three] c3
  have b: "fst (select_corners sketch_cv2 ?three fresh) = Inl (ValueError NeedFourCorners)"
    by simp
  from a b fresh_init show ?thesis by simp
qed

subsection \<open>Rectification\<close>

text \<open>
  C10. With fewer than four source-space corners, \<^verbatim>\<open>transform\<close> raises the \<^verbatim>\<open>ValueError\<close>
  of source line 104 and returns the session as it was: no warped image, no homography,
  and a result that does not depend on the library.
\<close>

theorem C10_transform_needs_four:
  assumes "length (original_corners s) < 4"
  shows "transform cv output_size s = (Inl (ValueError NeedFourCornersFirst), s)"
  using assms by (simp add: transform_def)

theorem C10_witness:
  "length (original_corners fresh) < 4 \<and>
   transform sketch_cv2 None fresh = (Inl (ValueError NeedFourCornersFirst), fresh)"
proof -
  have len: "length (original_corners fresh) < 4" by (simp add: fresh_def)
  from C10_transform_needs_four [OF len] len show ?thesis by simp
qed

text \<open>
  C2. For four corners \<open>c0, c1, c2, c3\<close> the computed size is
  \<open>W = floor (max |c2 - c3| |c1 - c0|)\<close> and \<open>H = floor (max |c1 - c2| |c0 - c3|)\<close>, where
  the edge lengths are the Euclidean norms as \<^verbatim>\<open>np.linalg.norm\<close> computes them in
  \<^verbatim>\<open>float32\<close>; corners whose computed edge lengths are 80 (top), 100 (bottom), 120 (left)
  and 130 (right) give (100, 130); and \<^verbatim>\<open>transform\<close> without an output size is
  \<^verbatim>\<open>transform\<close> with this size.
\<close>

theorem C2_compute_output_size:
  "compute_output_size [c0, c1, c2, c3] =
     (\<lfloor>max (linalg_norm (vsub c2 c3)) (linalg_norm (vsub c1 c0))\<rfloor>,
      \<lfloor>max (linalg_norm (vsub c1 c2)) (linalg_norm (vsub c0 c3))\<rfloor>) \<and>
   (linalg_norm (vsub c1 c0) = 80 \<and> linalg_norm (vsub c2 c3) = 100 \<and>
    linalg_norm (vsub c0 c3) = 120 \<and> linalg_norm (vsub c1 c2) = 130 \<longrightarrow>
      compute_output_size [c0, c1, c2, c3] = (100, 130)) \<and>
   transform cv None s =
     transform cv (Some (compute_output_size (float32 (original_corners s)))) s"
  by (simp add: compute_output_size_norms transform_None)

theorem C2_witness:
  "linalg_norm (vsub (trapezoid ! 1) (trapezoid ! 0)) = 80 \<and>
   linalg_norm (vsub (trapezoid ! 2) (trapezoid ! 3)) = 100 \<and>
   linalg_norm (vsub (trapezoid ! 0) (trapezoid ! 3)) = 120 \<and>
   linalg_norm (vsub (trapezoid ! 1) (trapezoid ! 2)) = 130 \<and>
   compute_output_size trapezoid = (100, 130)"
proof -
  have t: "trapezoid = [trapezoid ! 0, trapezoid ! 1, trapezoid ! 2, trapezoid ! 3]"
    by (simp add: trapezoid_def)
  from C2_compute_output_size [of "trapezoid ! 0" "trapezoid ! 1" "trapezoid ! 2" "trapezoid ! 3"]
    trapezoid_norms
  have "compute_output_size [trapezoid ! 0, trapezoid ! 1, trapezoid ! 2, trapezoid ! 3] =
      (100, 130)"
    by blast
  with t trapezoid_norms show ?thesis by simp
qed

text \<open>
  With exact Euclidean lengths the claim fails: the top and bottom edges of \<open>slanted\<close>
  have length \<open>sqrt 25010000 = 5000.9999\<close>, of floor 5000, while their \<^verbatim>\<open>float32\<close> norm
  is 5001.
\<close>

theorem C2_counterexample:
  "compute_output_size (float32 slanted) = (5001, 3000) \<and>
   (\<lfloor>max (edge (5000, 3100) (0, 3000)) (edge (5000, 100) (0, 0))\<rfloor>,
    \<lfloor>max (edge (5000, 100) (5000, 3100)) (edge (0, 0) (0, 3000))\<rfloor>) = (5000, 3000)"
proof -
  have "compute_output_size (float32 slanted) = (5001, 3000)"
    by (simp add: slanted_def float32_def compute_output_size_def Let_def vsub_def slanted_norms)
  moreover have "\<lfloor>max (edge (5000, 3100) (0, 3000)) (edge (5000, 100) (0, 0))\<rfloor> = 5000"
    using slanted_edges(1,2) floor_mono by (simp add: max_def)
  moreover have "\<lfloor>max (edge (5000, 100) (5000, 3100)) (edge (0, 0) (0, 3000))\<rfloor> = 3000"
    by (simp add: slanted_edges)
  ultimately show ?thesis by simp
qed

text \<open>
  C7. For corners and a translation vector with integer coordinates such that every
  coordinate, before and after the translation, lies between 0 and \<open>2^24\<close>, translating
  all four corners by the vector leaves the computed size unchanged: such coordinates
  and their differences are exact in \<^verbatim>\<open>float32\<close>, and the size depends on the differences
  only.
\<close>

theorem C7_translation_invariant:
  assumes "list_all pixel [p0, p1, p2, p3]"
    and "list_all pixel (map (translate t) [p0, p1, p2, p3])"
  shows "compute_output_size (float32 (map (translate t) [p0, p1, p2, p3])) =
           compute_output_size (float32 [p0, p1, p2, p3])"
proof -
  from assms(2) have "list_all pixel [translate t p0, translate t p1, translate t p2, translate t p3]"
    by simp
  then have "compute_output_size
      (float32 [translate t p0, translate t p1, translate t p2, translate t p3]) =
      compute_output_size (float32 [p0, p1, p2, p3])"
    by (simp only: compute_output_size_pixels assms(1)) (simp add: translate_def)
  then show ?thesis by simp
qed

theorem C7_witness:
  "list_all pixel square3 \<and> list_all pixel (map (translate (5, 7)) square3) \<and>
   compute_output_size (float32 (map (translate (5, 7)) square3)) = (3, 3) \<and>
   compute_output_size (float32 square3) = (3, 3)"
proof -
  have a: "list_all pixel [(0, 0), (3, 0), (3, 3), (0, 3)]"
    and b: "list_all pixel (map (translate (5, 7)) [(0, 0), (3, 0), (3, 3), (0, 3)])"
    by (simp_all add: pixel_def translate_def)
  have c: "compute_output_size (float32 [(0, 0), (3, 0), (3, 3), (0, 3)]) = (3, 3)"
    by (simp add: compute_output_size_pixels [OF a] small_norms)
  from C7_translation_invariant [OF a b] a b c show ?thesis
    by (simp add: square3_def)
qed

text \<open>
  Without the bound the claim fails: the square of side 3 has size (3, 3), and translated
  by \<open>(2^24, 0)\<close> it has size (4, 3), since 16777219 is not a \<^verbatim>\<open>float32\<close> value and is
  rounded to 16777220.
\<close>

theorem C7_counterexample:
  "compute_output_size (float32 square3) = (3, 3) \<and>
   compute_output_size (float32 (map (translate (16777216, 0)) square3)) = (4, 3)"
proof -
  have a: "list_all pixel [(0, 0), (3, 0), (3, 3), (0, 3)]"
    by (simp add: pixel_def)
  have "compute_output_size (float32 [(0, 0), (3, 0), (3, 3), (0, 3)]) = (3, 3)"
    by (simp add: compute_output_size_pixels [OF a] small_norms)
  moreover have "compute_output_size
      (float32 (map (translate (16777216, 0)) [(0, 0), (3, 0), (3, 3), (0, 3)])) = (4, 3)"
    by (simp add: translate_def float32_def compute_output_size_def Let_def vsub_def
        f32_16777219 small_norms)
  ultimately show ?thesis by (simp add: square3_def)
qed

text \<open>
  C6. With four corners and the output size \<open>(W, H)\<close>, \<^verbatim>\<open>transform\<close> asks the library for
  the homography from the corners to the \<^verbatim>\<open>float32\<close> array of
  \<open>[(0, 0), (W - 1, 0), (W - 1, H - 1), (0, H - 1)]\<close> (which holds these numbers exactly
  up to \<open>2^24\<close>) and warps the source image through it. For the corners
  \<open>[(0, 0), (99, 0), (99, 99), (0, 99)]\<close> and the size (100, 100) the destination is the
  corner set itself, so a library that finds an exact, normalised homography finds the
  identity matrix, which \<^verbatim>\<open>transform\<close> warps with and returns.
\<close>

theorem C6_destination_and_identity:
  assumes "length (original_corners s) = 4"
  shows "transform cv (Some (W, H)) s =
           (let M = findHomography cv (float32 (original_corners s))
                      (float32 [(0, 0), (W - 1, 0), (W - 1, H - 1), (0, H - 1)])
            in case warpPerspective cv (heap s ! original_image s) M (W, H) of
                 Inl e \<Rightarrow> (Inl e, s)
               | Inr warped \<Rightarrow> (Inr (length (heap s), M), s \<lparr> heap := heap s @ [warped] \<rparr>)) \<and>
         (\<bar>W - 1\<bar> \<le> 2 ^ 24 \<and> \<bar>H - 1\<bar> \<le> 2 ^ 24 \<longrightarrow>
            float32 [(0, 0), (W - 1, 0), (W - 1, H - 1), (0, H - 1)] =
              [(0, 0), (real_of_int W - 1, 0),
               (real_of_int W - 1, real_of_int H - 1), (0, real_of_int H - 1)]) \<and>
         (original_corners s = [(0, 0), (99, 0), (99, 99), (0, 99)] \<and>
          findHomography cv [(0, 0), (99, 0), (99, 99), (0, 99)]
                            [(0, 0), (99, 0), (99, 99), (0, 99)] = Some M0 \<and>
          exact_homography M0 [(0, 0), (99, 0), (99, 99), (0, 99)]
                              [(0, 0), (99, 0), (99, 99), (0, 99)] \<longrightarrow>
          M0 = identity3 \<and>
          transform cv (Some (100, 100)) s =
            (case warpPerspective cv (heap s ! original_image s) (Some identity3) (100, 100) of
               Inl e \<Rightarrow> (Inl e, s)
             | Inr warped \<Rightarrow>
                 (Inr (length (heap s), Some identity3), s \<lparr> heap := heap s @ [warped] \<rparr>)))"
proof -
  have general: "transform cv (Some (W, H)) s =
           (let M = findHomography cv (float32 (original_corners s))
                      (float32 [(0, 0), (W - 1, 0), (W - 1, H - 1), (0, H - 1)])
            in case warpPerspective cv (heap s ! original_image s) M (W, H) of
                 Inl e \<Rightarrow> (Inl e, s)
               | Inr warped \<Rightarrow> (Inr (length (heap s), M), s \<lparr> heap := heap s @ [warped] \<rparr>))"
    for W H
    using assms by (rule transform_four)
  have exact: "float32 [(0, 0), (W - 1, 0), (W - 1, H - 1), (0, H - 1)] =
              [(0, 0), (real_of_int W - 1, 0),
               (real_of_int W - 1, real_of_int H - 1), (0, real_of_int H - 1)]"
    if "\<bar>W - 1\<bar> \<le> 2 ^ 24" "\<bar>H - 1\<bar> \<le> 2 ^ 24"
    using f32_int_le [OF that(1)] f32_int_le [OF that(2)] by (simp add: float32_def)
  have "M0 = identity3 \<and> transform cv (Some (100, 100)) s =
            (case warpPerspective cv (heap s ! original_image s) (Some identity3) (100, 100) of
               Inl e \<Rightarrow> (Inl e, s)
             | Inr warped \<Rightarrow>
                 (Inr (length (heap s), Some identity3), s \<lparr> heap := heap s @ [warped] \<rparr>))"
    if oc: "original_corners s = [(0, 0), (99, 0), (99, 99), (0, 99)]"
      and fh: "findHomography cv [(0, 0), (99, 0), (99, 99), (0, 99)]
                            [(0, 0), (99, 0), (99, 99), (0, 99)] = Some M0"
      and ex: "exact_homography M0 [(0, 0), (99, 0), (99, 99), (0, 99)]
                              [(0, 0), (99, 0), (99, 99), (0, 99)]"
  proof -
    from ex have "M0 = identity3" by (rule identity_unique)
    with fh oc show ?thesis
      by (simp add: general [of 100 100] float32_def Let_def)
  qed
  with general [of W H] exact show ?thesis by blast
qed

theorem C6_witness:
  "length (original_corners unit_square) = 4 \<and>
   \<bar>100 - 1\<bar> \<le> (2::int) ^ 24 \<and>
   float32 [(0, 0), (99, 0), (99, 99), (0, 99)] = [(0, 0), (99, 0), (99, 99), (0, 99)] \<and>
   original_corners unit_square = [(0, 0), (99, 0), (99, 99), (0, 99)] \<and>
   findHomography sketch_cv2 [(0, 0), (99, 0), (99, 99), (0, 99)]
     [(0, 0), (99, 0), (99, 99), (0, 99)] = Some identity3 \<and>
   exact_homography identity3 [(0, 0), (99, 0), (99, 99), (0, 99)]
     [(0, 0), (99, 0), (99, 99), (0, 99)] \<and>
   transform sketch_cv2 (Some (100, 100)) unit_square =
     (Inr (3, Some identity3), unit_square \<lparr> heap := heap unit_square @ [(100, 100, [])] \<rparr>)"
proof -
  have len: "length (original_corners unit_square) = 4"
    and oc: "original_corners unit_square = [(0, 0), (99, 0), (99, 99), (0, 99)]"
    by (simp_all add: unit_square_def)
  have fh: "findHomography sketch_cv2 [(0, 0), (99, 0), (99, 99), (0, 99)]
     [(0, 0), (99, 0), (99, 99), (0, 99)] = Some identity3"
    by (simp add: sketch_cv2_def)
  have ex: "exact_homography identity3 [(0, 0), (99, 0), (99, 99), (0, 99)]
     [(0, 0), (99, 0), (99, 99), (0, 99)]"
    by (simp add: exact_homography_def maps_to_def identity3_def)
  have wp: "warpPerspective sketch_cv2 (heap unit_square ! original_image unit_square)
      (Some identity3) (100, 100) = Inr (100, 100, [])"
    by (simp add: sketch_cv2_def)
  have hl: "length (heap unit_square) = 3" by (simp add: unit_square_def fresh_def)
  have f99: "float32 [(0, 0), (99, 0), (99, 99), (0, 99)] = [(0, 0), (99, 0), (99, 99), (0, 99)]"
    by (simp add: float32_def)
  from C6_destination_and_identity [OF len, of sketch_cv2 100 100 identity3] oc fh ex
  have "transform sketch_cv2 (Some (100, 100)) unit_square =
     (case warpPerspective sketch_cv2 (heap unit_square ! original_image unit_square)
             (Some identity3) (100, 100) of
        Inl e \<Rightarrow> (Inl e, unit_square)
      | Inr warped \<Rightarrow> (Inr (length (heap unit_square), Some identity3),
          unit_square \<lparr> heap := heap unit_square @ [warped] \<rparr>))"
    by blast
  with wp hl len oc fh ex f99 show ?thesis by simp
qed

text \<open>
  C4. \<^verbatim>\<open>transform\<close> makes no check of the corners' geometry: on four corners every error it
  raises is the one \<^verbatim>\<open>cv2.warpPerspective\<close> raised on the matrix the solver returned, and the
  session is then unchanged and nothing is returned. For the collinear corners
  \<open>[(0, 0), (10, 0), (20, 0), (30, 0)]\<close> the computed size is (10, 30) and no matrix maps
  the corners exactly to the destination, so a solver that returns only exact
  homographies returns none, and \<^verbatim>\<open>transform\<close> raises whatever \<^verbatim>\<open>cv2.warpPerspective\<close> raises
  on the missing matrix.
\<close>

theorem C4_degenerate_corners:
  assumes "length (original_corners s) = 4"
  shows "(\<forall>W H e s'. (W, H) = (case output_size of
                                  None \<Rightarrow> compute_output_size (float32 (original_corners s))
                                | Some sz \<Rightarrow> sz) \<and>
                     transform cv output_size s = (Inl e, s') \<longrightarrow>
            s' = s \<and>
            warpPerspective cv (heap s ! original_image s)
              (findHomography cv (float32 (original_corners s))
                 (float32 [(0, 0), (W - 1, 0), (W - 1, H - 1), (0, H - 1)])) (W, H) = Inl e) \<and>
         (original_corners s = [(0, 0), (10, 0), (20, 0), (30, 0)] \<longrightarrow>
            compute_output_size (float32 (original_corners s)) = (10, 30) \<and>
            float32 (original_corners s) = [(0, 0), (10, 0), (20, 0), (30, 0)] \<and>
            float32 [(0, 0), (9, 0), (9, 29), (0, 29)] = [(0, 0), (9, 0), (9, 29), (0, 29)] \<and>
            (\<forall>M. \<not> exact_homography M [(0, 0), (10, 0), (20, 0), (30, 0)]
                                       [(0, 0), (9, 0), (9, 29), (0, 29)]) \<and>
            ((\<forall>M. findHomography cv [(0, 0), (10, 0), (20, 0), (30, 0)]
                                    [(0, 0), (9, 0), (9, 29), (0, 29)] = Some M \<longrightarrow>
                   exact_homography M [(0, 0), (10, 0), (20, 0), (30, 0)]
                                      [(0, 0), (9, 0), (9, 29), (0, 29)]) \<and>
             warpPerspective cv (heap s ! original_image s) None (10, 30) = Inl e0 \<longrightarrow>
             transform cv None s = (Inl e0, s)))"
proof -
  have errors: "s' = s \<and>
            warpPerspective cv (heap s ! original_image s)
              (findHomography cv (float32 (original_corners s))
                 (float32 [(0, 0), (W - 1, 0), (W - 1, H - 1), (0, H - 1)])) (W, H) = Inl e"
    if sz: "(W, H) = (case output_size of
                        None \<Rightarrow> compute_output_size (float32 (original_corners s))
                      | Some sz \<Rightarrow> sz)"
      and t: "transform cv output_size s = (Inl e, s')" for W H e s'
  proof -
    have "transform cv output_size s = transform cv (Some (W, H)) s"
      using sz by (cases output_size) (simp_all add: transform_None)
    with t have "transform cv (Some (W, H)) s = (Inl e, s')" by simp
    then show ?thesis
      unfolding transform_four [OF assms] by (auto simp: Let_def split: sum.splits)
  qed
  have scenario: "compute_output_size (float32 (original_corners s)) = (10, 30) \<and>
            float32 (original_corners s) = [(0, 0), (10, 0), (20, 0), (30, 0)] \<and>
            float32 [(0, 0), (9, 0), (9, 29), (0, 29)] = [(0, 0), (9, 0), (9, 29), (0, 29)] \<and>
            (\<forall>M. \<not> exact_homography M [(0, 0), (10, 0), (20, 0), (30, 0)]
                                       [(0, 0), (9, 0), (9, 29), (0, 29)]) \<and>
            ((\<forall>M. findHomography cv [(0, 0), (10, 0), (20, 0), (30, 0)]
                                    [(0, 0), (9, 0), (9, 29), (0, 29)] = Some M \<longrightarrow>
                   exact_homography M [(0, 0), (10, 0), (20, 0), (30, 0)]
                                      [(0, 0), (9, 0), (9, 29), (0, 29)]) \<and>
             warpPerspective cv (heap s ! original_image s) None (10, 30) = Inl e0 \<longrightarrow>
             transform cv None s = (Inl e0, s))"
    if oc: "original_corners s = [(0, 0), (10, 0), (20, 0), (30, 0)]"
  proof -
    have px: "list_all pixel [(0, 0), (10, 0), (20, 0), (30, 0)]"
      by (simp add: pixel_def)
    have ten: "linalg_norm (10, 0) = 10" "linalg_norm (- 10, 0) = 10"
      "linalg_norm (- 30, 0) = 30"
      by (rule linalg_norm_exact; simp)+
    have size: "compute_output_size (float32 (original_corners s)) = (10, 30)"
      by (simp add: oc compute_output_size_pixels [OF px] ten)
    have src: "float32 (original_corners s) = [(0, 0), (10, 0), (20, 0), (30, 0)]"
      by (simp add: oc float32_def)
    have dst: "float32 [(0, 0), (9, 0), (9, 29), (0, 29)] = [(0, 0), (9, 0), (9, 29), (0, 29)]"
      by (simp add: float32_def)
    have none: "\<forall>M. \<not> exact_homography M [(0, 0), (10, 0), (20, 0), (30, 0)]
        [(0, 0), (9, 0), (9, 29), (0, 29)]"
      by (simp add: no_exact_homography_collinear)
    have raise: "transform cv None s = (Inl e0, s)"
      if contract: "\<forall>M. findHomography cv [(0, 0), (10, 0), (20, 0), (30, 0)]
                                    [(0, 0), (9, 0), (9, 29), (0, 29)] = Some M \<longrightarrow>
                   exact_homography M [(0, 0), (10, 0), (20, 0), (30, 0)]
                                      [(0, 0), (9, 0), (9, 29), (0, 29)]"
        and wp: "warpPerspective cv (heap s ! original_image s) None (10, 30) = Inl e0"
    proof -
      from contract none
      have fh: "findHomography cv [(0, 0), (10, 0), (20, 0), (30, 0)]
          [(0, 0), (9, 0), (9, 29), (0, 29)] = None"
        by (cases "findHomography cv [(0, 0), (10, 0), (20, 0), (30, 0)]
          [(0, 0), (9, 0), (9, 29), (0, 29)]") auto
      have "transform cv None s = transform cv (Some (10, 30)) s"
        by (simp add: transform_None size)
      also have "\<dots> = (Inl e0, s)"
        unfolding transform_four [OF assms] by (simp add: src dst fh wp Let_def)
      finally show ?thesis .
    qed
    from size src dst none raise show ?thesis by blast
  qed
  from errors scenario show ?thesis by blast
qed

theorem C4_witness:
  "length (original_corners collinear) = 4 \<and>
   original_corners collinear = [(0, 0), (10, 0), (20, 0), (30, 0)] \<and>
   findHomography sketch_cv2 [(0, 0), (10, 0), (20, 0), (30, 0)]
     [(0, 0), (9, 0), (9, 29), (0, 29)] = None \<and>
   warpPerspective sketch_cv2 (heap collinear ! original_image collinear) None (10, 30) =
     Inl Cv2Error \<and>
   transform sketch_cv2 None collinear = (Inl Cv2Error, collinear)"
proof -
  have len: "length (original_corners collinear) = 4" by (simp add: collinear_source)
  have fh: "findHomography sketch_cv2 [(0, 0), (10, 0), (20, 0), (30, 0)]
     [(0, 0), (9, 0), (9, 29), (0, 29)] = None"
    by (simp add: sketch_cv2_def)
  have wp: "warpPerspective sketch_cv2 (heap collinear ! original_image collinear) None (10, 30) =
     Inl Cv2Error"
    by (simp add: sketch_cv2_def)
  from C4_degenerate_corners [OF len, of None sketch_cv2 Cv2Error] collinear_source fh wp
  have "transform sketch_cv2 None collinear = (Inl Cv2Error, collinear)" by simp
  with len collinear_source fh wp show ?thesis by simp
qed

text \<open>
  Degenerate corners do not force an error: with three coincident corners and a solver
  that returns a matrix, \<^verbatim>\<open>transform\<close> returns a warped image and the matrix.
\<close>

theorem C4_counterexample:
  "original_corners coincident = [(0, 0), (0, 0), (0, 0), (6, 8)] \<and>
   transform fitting_cv2 None coincident =
     (Inr (length (heap coincident), Some identity3),
      coincident \<lparr> heap := heap coincident @ [(10, 10, [])] \<rparr>)"
proof -
  have px: "list_all pixel [(0, 0), (0, 0), (0, 0), (6, 8)]"
    by (simp add: pixel_def)
  have size: "compute_output_size (float32 (original_corners coincident)) = (10, 10)"
    by (simp add: coincident_source compute_output_size_pixels [OF px] small_norms)
  have len: "length (original_corners coincident) = 4" by (simp add: coincident_source)
  have "transform fitting_cv2 None coincident = transform fitting_cv2 (Some (10, 10)) coincident"
    by (simp add: transform_None size)
  also have "\<dots> = (Inr (length (heap coincident), Some identity3),
      coincident \<lparr> heap := heap coincident @ [(10, 10, [])] \<rparr>)"
    unfolding transform_four [OF len]
    by (simp add: coincident_image fitting_cv2_def sketch_cv2_def photo_def Let_def)
  finally show ?thesis by (simp add: coincident_source)
qed

subsection \<open>The buffers\<close>

text \<open>
  C8. In every session the two full-resolution buffers (\<^verbatim>\<open>image\<close> and \<^verbatim>\<open>original_image\<close>)
  hold the image that was loaded, and the preview is a third buffer. The callback keeps
  the store's size and changes no buffer but the preview; \<^verbatim>\<open>transform\<close> only extends the
  store, and the image it returns is a new buffer, none of the session's three.
\<close>

theorem C8_source_never_modified:
  assumes "s \<in> sessions cv img"
  shows "heap s ! image s = img \<and> heap s ! original_image s = img \<and>
         display_image s \<noteq> image s \<and> display_image s \<noteq> original_image s \<and>
         length (heap (mouse_callback cv event x y s)) = length (heap s) \<and>
         (\<forall>a. a \<noteq> display_image s \<longrightarrow> heap (mouse_callback cv event x y s) ! a = heap s ! a) \<and>
         (\<exists>new. heap (snd (transform cv output_size s)) = heap s @ new) \<and>
         (\<forall>w H. fst (transform cv output_size s) = Inr (w, H) \<longrightarrow>
            w = length (heap s) \<and> w < length (heap (snd (transform cv output_size s))) \<and>
            w \<noteq> image s \<and> w \<noteq> original_image s \<and> w \<noteq> display_image s)"
proof -
  from assms have inv: "session_inv cv img s" by (rule sessions_inv)
  then have src: "heap s ! image s = img \<and> heap s ! original_image s = img \<and>
         display_image s \<noteq> image s \<and> display_image s \<noteq> original_image s"
    by (simp add: session_inv_def)
  have len: "length (heap (mouse_callback cv event x y s)) = length (heap s)"
    by (simp add: mouse_callback_def Let_def)
  have frame: "\<forall>a. a \<noteq> display_image s \<longrightarrow>
      heap (mouse_callback cv event x y s) ! a = heap s ! a"
    by (simp add: mouse_callback_def Let_def)
  have ext: "\<exists>new. heap (snd (transform cv output_size s)) = heap s @ new"
    by (auto simp: transform_def Let_def split: prod.splits sum.splits)
  have new: "\<forall>w H. fst (transform cv output_size s) = Inr (w, H) \<longrightarrow>
            w = length (heap s) \<and> w < length (heap (snd (transform cv output_size s))) \<and>
            w \<noteq> image s \<and> w \<noteq> original_image s \<and> w \<noteq> display_image s"
    using inv
    by (auto simp: transform_def session_inv_def Let_def split: prod.splits sum.splits if_splits)
  from src len frame ext new show ?thesis by blast
qed

theorem C8_witness:
  "fresh \<in> sessions sketch_cv2 photo \<and>
   heap fresh ! original_image fresh = photo \<and>
   heap started ! original_image fresh = photo \<and>
   heap started ! image fresh = photo \<and>
   heap started ! display_image fresh =
     (240, 320, [Circle (10, 20) 5 (0, 255, 0) (- 1),
                 PutText ''1'' (20, 10) 0 (7 / 10) (255, 0, 0) 2]) \<and>
   marked \<in> sessions sketch_cv2 photo \<and>
   fst (transform sketch_cv2 (Some (101, 101)) marked) =
     Inr (length (heap marked), Some identity3) \<and>
   heap (snd (transform sketch_cv2 (Some (101, 101)) marked)) = heap marked @ [(101, 101, [])]"
proof -
  note f = C8_source_never_modified [OF fresh_session, of EVENT_LBUTTONDOWN 10 20 None]
  note m = C8_source_never_modified [OF marked_session, of EVENT_LBUTTONDOWN 10 20
      "Some (101, 101)"]
  from f have a: "heap fresh ! original_image fresh = photo"
    and b: "heap started ! original_image fresh = photo"
    and c: "heap started ! image fresh = photo"
    unfolding started_def by metis+
  have d: "heap started ! display_image fresh =
     (240, 320, [Circle (10, 20) 5 (0, 255, 0) (- 1),
                 PutText ''1'' (20, 10) 0 (7 / 10) (255, 0, 0) 2])"
    by (simp add: started_eval) (simp add: fresh_def)
  from m have src: "heap marked ! original_image marked = photo" by blast
  have t: "transform sketch_cv2 (Some (101, 101)) marked =
      (Inr (length (heap marked), Some identity3),
       marked \<lparr> heap := heap marked @ [(101, 101, [])] \<rparr>)"
    by (simp add: transform_def marked_source src float32_def Let_def)
       (simp add: sketch_cv2_def photo_def)
  from a b c d t fresh_session marked_session show ?thesis by simp
qed

end
